theory Spec2Isabelle
  imports Complex_Main "HOL-Library.Word"
begin

section \<open>Data model of the poster text-removal pipeline\<close>

text \<open>
  The development follows \<^verbatim>\<open>image_processor.py\<close> (functions \<^verbatim>\<open>get_reader\<close>,
  \<^verbatim>\<open>detect_and_blur_text\<close>, \<^verbatim>\<open>save_processed_image\<close>) and the route
  \<^verbatim>\<open>get_processed_poster\<close> of \<^verbatim>\<open>app.py\<close>.

  A numpy array of shape (height, width, channels) is a list of rows, each row a list of
  pixels, each pixel the list of its 8-bit channels. The mask is a two-dimensional
  \<^verbatim>\<open>uint8\<close> array: a list of rows of bytes.
\<close>

type_synonym byte = "8 word"
type_synonym pixel = "byte list"
type_synonym raster = "pixel list list"
type_synonym mask = "byte list list"

text \<open>Every exception of the Python code is a value; the code only ever catches
  \<^verbatim>\<open>Exception\<close> as a whole, so the model keeps the kind for documentation only.\<close>

datatype py_error =
    ConnectionError | HTTPError | DecodeError | CvError | ReaderInitError | OcrError
  | IndexError | OSError | FileNotFoundError | TypeError

text \<open>One EasyOCR detection \<^verbatim>\<open>(bbox, text, confidence)\<close>: the box is a list of points
  (four for EasyOCR), whose coordinates may be fractional before \<^verbatim>\<open>astype(int)\<close>.\<close>

type_synonym detection = "(rat \<times> rat) list \<times> string \<times> rat"

text \<open>\<^verbatim>\<open>img.shape[0]\<close> and \<^verbatim>\<open>img.shape[1]\<close>.\<close>

definition shape0 :: "'a list list \<Rightarrow> int" where
  "shape0 img = int (length img)"

definition shape1 :: "'a list list \<Rightarrow> int" where
  "shape1 img = (case img of [] \<Rightarrow> 0 | row # _ \<Rightarrow> int (length row))"

text \<open>\<^verbatim>\<open>np.zeros((h, w), dtype=np.uint8)\<close>.\<close>

definition np_zeros :: "int \<Rightarrow> int \<Rightarrow> mask" where
  "np_zeros h w = replicate (nat h) (replicate (nat w) 0)"

text \<open>numpy's \<^verbatim>\<open>astype(int)\<close> truncates towards zero. Coordinates are taken within the
  range of a 64-bit integer; beyond it numpy does not truncate.\<close>

definition astype_int :: "rat \<Rightarrow> int" where
  "astype_int q = (if 0 \<le> q then \<lfloor>q\<rfloor> else \<lceil>q\<rceil>)"

section \<open>Mask builder (lines 62--87 of \<^verbatim>\<open>image_processor.py\<close>)\<close>

text \<open>
  Lines 71--82: the bounding rectangle of the box, clamped, padded by 5 and clamped
  again. \<^verbatim>\<open>bbox[:, 0]\<close> raises on an array without points.
\<close>

definition padding :: int where
  "padding = 5"

definition region :: "int \<Rightarrow> int \<Rightarrow> (rat \<times> rat) list \<Rightarrow> py_error + (int \<times> int \<times> int \<times> int)" where
  "region width height bbox0 =
     (let bbox = map (\<lambda>(x, y). (astype_int x, astype_int y)) bbox0 in
      if bbox = [] then Inl IndexError
      else
        let x_min = max 0 (Min (set (map fst bbox)));
            y_min = max 0 (Min (set (map snd bbox)));
            x_max = min width (Max (set (map fst bbox)));
            y_max = min height (Max (set (map snd bbox)));
            x_min = max 0 (x_min - padding);
            y_min = max 0 (y_min - padding);
            x_max = min width (x_max + padding);
            y_max = min height (y_max + padding)
        in Inr (x_min, y_min, x_max, y_max))"

text \<open>
  \<^verbatim>\<open>cv2.rectangle(mask, pt1, pt2, 255, -1)\<close> is OpenCV's: it fills the rectangle whose
  opposite corners are the two points, both corners included and in either order, and
  clips it to the array. \<open>in_rectangle\<close> is the set of pixel positions it paints.
  Corners are taken within the range of a 32-bit integer; OpenCV raises beyond it.
\<close>

definition in_rectangle :: "int \<times> int \<times> int \<times> int \<Rightarrow> int \<Rightarrow> int \<Rightarrow> bool" where
  "in_rectangle r x y =
     (case r of (x1, y1, x2, y2) \<Rightarrow>
        min x1 x2 \<le> x \<and> x \<le> max x1 x2 \<and> min y1 y2 \<le> y \<and> y \<le> max y1 y2)"

definition cv2_rectangle :: "mask \<Rightarrow> int \<times> int \<Rightarrow> int \<times> int \<Rightarrow> byte \<Rightarrow> mask" where
  "cv2_rectangle m pt1 pt2 color =
     map (\<lambda>(y, row).
            map (\<lambda>(x, v). if in_rectangle (fst pt1, snd pt1, fst pt2, snd pt2) (int x) (int y)
                           then color else v)
                (enumerate 0 row))
         (enumerate 0 m)"

text \<open>
  The loop of lines 64--87 over the detections, carrying \<^verbatim>\<open>mask\<close> and
  \<^verbatim>\<open>inpaint_count\<close>. The source compares against the literal 0.3; the loop takes the
  threshold as its first argument and \<open>detect_and_blur_text\<close> below passes
  \<open>confidence_threshold\<close>.
\<close>

definition confidence_threshold :: rat where
  "confidence_threshold = 3 / 10"

fun mask_loop :: "rat \<Rightarrow> int \<Rightarrow> int \<Rightarrow> detection list \<Rightarrow> mask \<times> nat \<Rightarrow> py_error + mask \<times> nat" where
  "mask_loop t width height [] acc = Inr acc"
| "mask_loop t width height ((bbox, text, confidence) # ds) (m, inpaint_count) =
     (if confidence > t then
        (case region width height bbox of
           Inl e \<Rightarrow> Inl e
         | Inr (x_min, y_min, x_max, y_max) \<Rightarrow>
             mask_loop t width height ds
               (cv2_rectangle m (x_min, y_min) (x_max, y_max) 255, inpaint_count + 1))
      else mask_loop t width height ds (m, inpaint_count))"

text \<open>The detections that pass the confidence test, in order.\<close>

definition accepted :: "rat \<Rightarrow> detection list \<Rightarrow> detection list" where
  "accepted t ds = filter (\<lambda>(bbox, text, confidence). confidence > t) ds"

text \<open>The quadrilateral's bounding box meets the image: some point has \<open>x \<ge> 0\<close>, some
  point has \<open>x \<le> width\<close>, and likewise for \<open>y\<close>.\<close>

definition box_meets_image :: "int \<Rightarrow> int \<Rightarrow> (rat \<times> rat) list \<Rightarrow> bool" where
  "box_meets_image width height bbox0 =
     (let xs = map (\<lambda>p. astype_int (fst p)) bbox0; ys = map (\<lambda>p. astype_int (snd p)) bbox0 in
      (\<exists>x\<in>set xs. 0 \<le> x) \<and> (\<exists>x\<in>set xs. x \<le> width) \<and>
      (\<exists>y\<in>set ys. 0 \<le> y) \<and> (\<exists>y\<in>set ys. y \<le> height))"

section \<open>The world outside the program\<close>

text \<open>
  The network, the file system and the global \<^verbatim>\<open>reader\<close> are state; every call that
  touches them is recorded in \<open>log\<close>. \<open>net\<close> holds the outcomes of the coming
  \<^verbatim>\<open>requests.get\<close> calls, in order (an exhausted list is a connection error), so that two
  fetches of one URL may differ.
\<close>

record response =
  status_code :: nat
  content :: "byte list"

datatype event =
    Requests_get string | Reader_init | Readtext | Inpaint | Makedirs string | Imwrite string

record world =
  net :: "(py_error + response) list"
  reader :: bool
  files :: "string \<rightharpoonup> byte list"
  dirs :: "string set"
  log :: "event list"

text \<open>
  The third-party routines the code calls are parameters: PIL's \<^verbatim>\<open>Image.open\<close> with
  \<^verbatim>\<open>np.array\<close>, \<^verbatim>\<open>cv2.cvtColor(_, COLOR_RGB2BGR)\<close>, the construction of
  \<^verbatim>\<open>easyocr.Reader\<close>, its \<^verbatim>\<open>readtext\<close>, \<^verbatim>\<open>cv2.inpaint(img, mask, radius, INPAINT_TELEA)\<close>,
  \<^verbatim>\<open>os.makedirs(_, exist_ok=True)\<close> (\<open>None\<close>: no exception) and \<^verbatim>\<open>cv2.imwrite\<close>
  (what it returns or raises, and the bytes it leaves at the path, if any).
  \<open>static_folder\<close> is Flask's \<^verbatim>\<open>app.static_folder\<close>.
\<close>

record env =
  Image_open :: "byte list \<Rightarrow> py_error + raster"
  cvtColor :: "raster \<Rightarrow> py_error + raster"
  Reader_new :: "py_error option"
  readtext :: "raster \<Rightarrow> py_error + detection list"
  inpaint :: "raster \<Rightarrow> mask \<Rightarrow> nat \<Rightarrow> py_error + raster"
  makedirs :: "string \<Rightarrow> py_error option"
  imwrite :: "string \<Rightarrow> raster \<Rightarrow> (py_error + bool) \<times> byte list option"
  static_folder :: string

definition requests_get :: "string \<Rightarrow> world \<Rightarrow> (py_error + response) \<times> world" where
  "requests_get url w =
     (case net w of
        [] \<Rightarrow> (Inl ConnectionError, w\<lparr>log := log w @ [Requests_get url]\<rparr>)
      | r # rs \<Rightarrow> (r, w\<lparr>net := rs, log := log w @ [Requests_get url]\<rparr>))"

text \<open>\<^verbatim>\<open>response.raise_for_status()\<close>: an HTTPError for the statuses 400 to 599.\<close>

definition raise_for_status :: "response \<Rightarrow> py_error + unit" where
  "raise_for_status r =
     (if 400 \<le> status_code r \<and> status_code r < 600 then Inl HTTPError else Inr ())"

section \<open>\<^verbatim>\<open>image_processor.py\<close>\<close>

text \<open>\<^verbatim>\<open>get_reader\<close>: the engine is built on first use and kept in the global.\<close>

definition get_reader :: "env \<Rightarrow> world \<Rightarrow> (py_error + unit) \<times> world" where
  "get_reader e w =
     (if reader w then (Inr (), w)
      else (case Reader_new e of
              Some err \<Rightarrow> (Inl err, w\<lparr>log := log w @ [Reader_init]\<rparr>)
            | None \<Rightarrow> (Inr (), w\<lparr>reader := True, log := log w @ [Reader_init]\<rparr>)))"

text \<open>The body of the \<^verbatim>\<open>try\<close> of \<^verbatim>\<open>detect_and_blur_text\<close> (lines 32--98); \<open>Inl\<close> is an
  exception on its way to the \<^verbatim>\<open>except\<close> clause. The \<^verbatim>\<open>print\<close> calls are left out.\<close>

definition try_body :: "env \<Rightarrow> string \<Rightarrow> world \<Rightarrow> (py_error + raster) \<times> world" where
  "try_body e image_url w =
     (case requests_get image_url w of
        (Inl err, w1) \<Rightarrow> (Inl err, w1)
      | (Inr response, w1) \<Rightarrow>
     (case raise_for_status response of
        Inl err \<Rightarrow> (Inl err, w1)
      | Inr _ \<Rightarrow>
     (case Image_open e (content response) of
        Inl err \<Rightarrow> (Inl err, w1)
      | Inr img_pil \<Rightarrow>
     (case cvtColor e img_pil of
        Inl err \<Rightarrow> (Inl err, w1)
      | Inr img \<Rightarrow>
     (let result = img;
          mask0 = np_zeros (shape0 img) (shape1 img) in
     (case get_reader e w1 of
        (Inl err, w2) \<Rightarrow> (Inl err, w2)
      | (Inr _, w2) \<Rightarrow>
     (let w3 = w2\<lparr>log := log w2 @ [Readtext]\<rparr> in
     (case readtext e img of
        Inl err \<Rightarrow> (Inl err, w3)
      | Inr detections \<Rightarrow>
     (case mask_loop confidence_threshold (shape1 img) (shape0 img) detections (mask0, 0) of
        Inl err \<Rightarrow> (Inl err, w3)
      | Inr (mask1, inpaint_count) \<Rightarrow>
          if inpaint_count > 0 then
            (let w4 = w3\<lparr>log := log w3 @ [Inpaint]\<rparr> in
             case inpaint e img mask1 7 of
               Inl err \<Rightarrow> (Inl err, w4)
             | Inr result \<Rightarrow> (Inr result, w4))
          else (Inr result, w3))))))))))"

text \<open>\<^verbatim>\<open>detect_and_blur_text(image_url, blur_strength=25)\<close>: the \<^verbatim>\<open>try\<close>, and the
  \<^verbatim>\<open>except\<close> clause of lines 100--108, which fetches again (without
  \<^verbatim>\<open>raise_for_status\<close>), decodes and returns the raster, or \<^verbatim>\<open>None\<close>.\<close>

definition detect_and_blur_text :: "env \<Rightarrow> string \<Rightarrow> int \<Rightarrow> world \<Rightarrow> raster option \<times> world" where
  "detect_and_blur_text e image_url blur_strength w =
     (case try_body e image_url w of
        (Inr result, w1) \<Rightarrow> (Some result, w1)
      | (Inl err, w1) \<Rightarrow>
          (case requests_get image_url w1 of
             (Inl _, w2) \<Rightarrow> (None, w2)
           | (Inr response, w2) \<Rightarrow>
               (case Image_open e (content response) of
                  Inl _ \<Rightarrow> (None, w2)
                | Inr img_pil \<Rightarrow>
                    (case cvtColor e img_pil of
                       Inl _ \<Rightarrow> (None, w2)
                     | Inr img \<Rightarrow> (Some img, w2)))))"

text \<open>\<^verbatim>\<open>os.path.dirname\<close>, \<^verbatim>\<open>os.path.join\<close> and \<^verbatim>\<open>os.path.exists\<close> of posixpath.\<close>

definition os_path_dirname :: "string \<Rightarrow> string" where
  "os_path_dirname p =
     (let head = rev (dropWhile (\<lambda>c. c \<noteq> CHR ''/'') (rev p)) in
      if head \<noteq> [] \<and> head \<noteq> replicate (length head) (CHR ''/'')
      then rev (dropWhile (\<lambda>c. c = CHR ''/'') (rev head)) else head)"

definition os_path_join :: "string \<Rightarrow> string \<Rightarrow> string" where
  "os_path_join a b =
     (if b \<noteq> [] \<and> hd b = CHR ''/'' then b
      else if a = [] \<or> last a = CHR ''/'' then a @ b
      else a @ ''/'' @ b)"

definition os_path_exists :: "world \<Rightarrow> string \<Rightarrow> bool" where
  "os_path_exists w p = (files w p \<noteq> None \<or> p \<in> dirs w)"

text \<open>\<^verbatim>\<open>save_processed_image(image_array, output_path)\<close> (lines 111--142).\<close>

definition save_processed_image :: "env \<Rightarrow> raster option \<Rightarrow> string \<Rightarrow> world \<Rightarrow> bool \<times> world" where
  "save_processed_image e image_array output_path w =
     (case image_array of
        None \<Rightarrow> (False, w)
      | Some arr \<Rightarrow>
          (let d = os_path_dirname output_path;
               w1 = w\<lparr>log := log w @ [Makedirs d]\<rparr> in
           case makedirs e d of
             Some _ \<Rightarrow> (False, w1)
           | None \<Rightarrow>
               (let w2 = w1\<lparr>dirs := insert d (dirs w1)\<rparr>;
                    (ret, written) = imwrite e output_path arr;
                    w3 = w2\<lparr>files := (case written of
                                          None \<Rightarrow> files w2
                                        | Some bytes \<Rightarrow> (files w2)(output_path \<mapsto> bytes)),
                             log := log w2 @ [Imwrite output_path]\<rparr> in
                case ret of
                  Inl _ \<Rightarrow> (False, w3)
                | Inr success \<Rightarrow>
                    if success then (if os_path_exists w3 output_path then (True, w3) else (False, w3))
                    else (False, w3))))"

section \<open>The route \<^verbatim>\<open>/processed-poster/<poster_id>\<close> of \<^verbatim>\<open>app.py\<close>\<close>

text \<open>\<^verbatim>\<open>session["movie_q"]\<close> as \<^verbatim>\<open>get_movie_question\<close> builds it (the fields the route
  reads); the session of a request without a question is \<open>None\<close>.\<close>

record movie_q =
  poster_url :: string
  poster_id :: string

datatype http_response = Send_file "byte list" | Redirect string | Not_found_404 | Error_500

text \<open>Flask's \<^verbatim>\<open>send_file(path, mimetype='image/jpeg')\<close> raises when there is no file.\<close>

definition send_file :: "world \<Rightarrow> string \<Rightarrow> py_error + http_response" where
  "send_file w p = (case files w p of None \<Rightarrow> Inl FileNotFoundError | Some bytes \<Rightarrow> Inr (Send_file bytes))"

definition PROCESSED_IMAGES_DIR :: "env \<Rightarrow> string" where
  "PROCESSED_IMAGES_DIR e = os_path_join (static_folder e) ''processed_images''"

definition processed_path :: "env \<Rightarrow> string \<Rightarrow> string" where
  "processed_path e requested = os_path_join (PROCESSED_IMAGES_DIR e) (requested @ ''.jpg'')"

text \<open>The \<^verbatim>\<open>try\<close> of \<^verbatim>\<open>get_processed_poster\<close> (lines 219--256); \<open>requested\<close> is the
  \<^verbatim>\<open>poster_id\<close> of the URL.\<close>

definition try_route :: "env \<Rightarrow> movie_q option \<Rightarrow> string \<Rightarrow> world \<Rightarrow> (py_error + http_response) \<times> world" where
  "try_route e session requested w =
     (if os_path_exists w (processed_path e requested) then (send_file w (processed_path e requested), w)
      else
        (case session of
           None \<Rightarrow> (Inr Not_found_404, w)
         | Some q \<Rightarrow>
             (let session_poster_id = poster_id q;
                  original_url = poster_url q in
              if session_poster_id = requested \<and> original_url \<noteq> [] then
                (case detect_and_blur_text e original_url 51 w of
                   (Some processed_image, w1) \<Rightarrow>
                     (let w2 = snd (save_processed_image e (Some processed_image) (processed_path e requested) w1)
                      in (send_file w2 (processed_path e requested), w2))
                 | (None, w1) \<Rightarrow> (Inr (Redirect original_url), w1))
              else (Inr (Redirect original_url), w))))"

text \<open>The route with its \<^verbatim>\<open>except\<close> clause (lines 258--265).\<close>

definition get_processed_poster :: "env \<Rightarrow> movie_q option \<Rightarrow> string \<Rightarrow> world \<Rightarrow> http_response \<times> world" where
  "get_processed_poster e session requested w =
     (case try_route e session requested w of
        (Inr r, w1) \<Rightarrow> (r, w1)
      | (Inl _, w1) \<Rightarrow>
          (case session of
             Some q \<Rightarrow> (Redirect (poster_url q), w1)
           | None \<Rightarrow> (Error_500, w1)))"

text \<open>A sequence of requests to the route, each with the session it carries and the
  behaviour of the libraries at that time.\<close>

fun serve :: "(env \<times> movie_q option \<times> string) list \<Rightarrow> world \<Rightarrow> http_response list \<times> world" where
  "serve [] w = ([], w)"
| "serve ((e, session, requested) # rs) w =
     (let (r, w1) = get_processed_poster e session requested w;
          (rest, w2) = serve rs w1
      in (r # rest, w2))"

section \<open>Auxiliary notions for the proofs\<close>

text \<open>A step that leaves the file system alone: files and directories are the same and
  the log grew by events that are neither \<open>Imwrite\<close> nor \<open>Makedirs\<close>.\<close>

definition fs_kept :: "world \<Rightarrow> world \<Rightarrow> bool" where
  "fs_kept w w' =
     (files w' = files w \<and> dirs w' = dirs w \<and>
      (\<exists>evs. log w' = log w @ evs \<and> (\<forall>p. Imwrite p \<notin> set evs \<and> Makedirs p \<notin> set evs)))"

text \<open>A step that leaves the file at \<open>p\<close> alone and logs no \<open>Imwrite p\<close>.\<close>

definition entry_kept :: "string \<Rightarrow> world \<Rightarrow> world \<Rightarrow> bool" where
  "entry_kept p w w' =
     (files w' p = files w p \<and> (\<exists>evs. log w' = log w @ evs \<and> Imwrite p \<notin> set evs))"

section \<open>A small poster, used to instantiate the theorems\<close>

text \<open>A 16 by 4 image, decoded from a two-byte body, with a title and a tagline in its
  top left corner and a low-confidence detection further right.\<close>

definition example_pil :: raster where
  "example_pil = replicate 4 (replicate 16 [10, 20, 30])"

definition example_img :: raster where
  "example_img = replicate 4 (replicate 16 [30, 20, 10])"

definition example_noise :: detection where
  "example_noise = ([(12, 1), (13, 1), (13, 2), (12, 2)], ''noise'', 1 / 10)"

definition example_detections :: "detection list" where
  "example_detections =
     [([(0, 0), (1, 0), (1, 1), (0, 1)], ''TITLE'', 82 / 100),
      ([(1, 1), (2, 1), (2, 2), (1, 2)], ''tagline'', 1 / 2),
      example_noise]"

definition example_mask :: mask where
  "example_mask = replicate 4 (replicate 8 255 @ replicate 8 0)"

definition example_env :: env where
  "example_env =
     \<lparr>Image_open = (\<lambda>bytes. if bytes = [137, 80] then Inr example_pil else Inl DecodeError),
      cvtColor = (\<lambda>r. if r = example_pil then Inr example_img else Inl CvError),
      Reader_new = None,
      readtext = (\<lambda>img. Inr example_detections),
      inpaint = (\<lambda>img m radius. Inl CvError),
      makedirs = (\<lambda>d. None),
      imwrite = (\<lambda>p arr. (Inr True, Some [255, 216])),
      static_folder = ''/app/static''\<rparr>"

definition example_url :: string where
  "example_url = ''https://image.tmdb.org/t/p/w500/a.jpg''"

definition example_world :: world where
  "example_world =
     \<lparr>net = [Inr \<lparr>status_code = 200, content = [137, 80]\<rparr>,
             Inr \<lparr>status_code = 200, content = [137, 80]\<rparr>],
      reader = False, files = Map.empty, dirs = {}, log = []\<rparr>"

text \<open>The same world with the poster \<open>abc\<close> already in the cache, and three requests:
  for \<open>abc\<close> without a session, for the uncached \<open>xyz\<close>, and for \<open>abc\<close> again.\<close>

definition example_cached :: world where
  "example_cached =
     example_world\<lparr>files := [processed_path example_env ''abc'' \<mapsto> [255, 216, 255]]\<rparr>"

definition example_requests :: "(env \<times> movie_q option \<times> string) list" where
  "example_requests =
     [(example_env, None, ''abc''),
      (example_env, Some \<lparr>poster_url = example_url, poster_id = ''xyz''\<rparr>, ''xyz''),
      (example_env, Some \<lparr>poster_url = example_url, poster_id = ''abc''\<rparr>, ''abc'')]"

section \<open>Facts about the mask builder\<close>

lemma cv2_rectangle_length: "length (cv2_rectangle m p q c) = length m"
  by (simp add: cv2_rectangle_def)

lemma cv2_rectangle_row_length:
  "y < length m \<Longrightarrow> length (cv2_rectangle m p q c ! y) = length (m ! y)"
  by (simp add: cv2_rectangle_def nth_enumerate_eq)

lemma cv2_rectangle_nth:
  "y < length m \<Longrightarrow> x < length (m ! y) \<Longrightarrow>
   cv2_rectangle m p q c ! y ! x =
     (if in_rectangle (fst p, snd p, fst q, snd q) (int x) (int y) then c else m ! y ! x)"
  by (simp add: cv2_rectangle_def nth_enumerate_eq)

lemma region_Inr_iff: "(\<exists>r. region w h b = Inr r) = (b \<noteq> [])"
  by (auto simp: region_def Let_def)

lemma mask_loop_accepted:
  "mask_loop t w h (accepted t ds) acc = mask_loop t w h ds acc"
proof (induction ds arbitrary: acc)
  case Nil
  then show ?case by (simp add: accepted_def)
next
  case (Cons d ds)
  obtain bbox tx c where d: "d = (bbox, tx, c)" by (cases d)
  obtain m n where acc: "acc = (m, n)" by (cases acc)
  show ?case using Cons.IH
    by (auto simp: d acc accepted_def split: sum.splits)
qed

lemma mask_loop_sound:
  "mask_loop t w h ds (m, n) = Inr (m', n') \<Longrightarrow>
   length m' = length m \<and>
   (\<forall>y<length m. length (m' ! y) = length (m ! y)) \<and>
   n' = n + length (accepted t ds) \<and>
   (\<forall>y<length m. \<forall>x<length (m ! y).
      (m' ! y ! x \<noteq> 0) =
      (m ! y ! x \<noteq> 0 \<or>
        (\<exists>d\<in>set (accepted t ds). \<exists>r. region w h (fst d) = Inr r \<and> in_rectangle r (int x) (int y))))"
proof (induction ds arbitrary: m n)
  case Nil
  then show ?case by (simp add: accepted_def)
next
  case (Cons d ds)
  obtain bbox tx c where d: "d = (bbox, tx, c)" by (cases d)
  show ?case
  proof (cases "c > t")
    case False
    with Cons.prems d have "mask_loop t w h ds (m, n) = Inr (m', n')" by simp
    from Cons.IH[OF this] False d show ?thesis by (simp add: accepted_def)
  next
    case True
    with Cons.prems d obtain r where r: "region w h bbox = Inr r"
      by (auto split: sum.splits)
    obtain x1 y1 x2 y2 where rr: "r = (x1, y1, x2, y2)" by (cases r)
    let ?m1 = "cv2_rectangle m (x1, y1) (x2, y2) 255"
    from Cons.prems d True r rr have run: "mask_loop t w h ds (?m1, n + 1) = Inr (m', n')"
      by simp
    note ih = Cons.IH[OF run]
    have acc: "accepted t (d # ds) = d # accepted t ds"
      using True d by (simp add: accepted_def)
    have l: "length ?m1 = length m" by (rule cv2_rectangle_length)
    show ?thesis
    proof (intro conjI allI impI)
      show "length m' = length m" using ih l by simp
    next
      fix y assume "y < length m"
      then show "length (m' ! y) = length (m ! y)"
        using ih l by (simp add: cv2_rectangle_row_length)
    next
      show "n' = n + length (accepted t (d # ds))" using ih acc by simp
    next
      fix y x assume y: "y < length m" and x: "x < length (m ! y)"
      have x1: "x < length (?m1 ! y)" using x y by (simp add: cv2_rectangle_row_length)
      have px: "(?m1 ! y ! x \<noteq> 0) = (m ! y ! x \<noteq> 0 \<or> in_rectangle r (int x) (int y))"
        using x y by (simp add: cv2_rectangle_nth rr)
      from ih y x1 l
      have "(m' ! y ! x \<noteq> 0) =
        (?m1 ! y ! x \<noteq> 0 \<or>
          (\<exists>d\<in>set (accepted t ds). \<exists>r. region w h (fst d) = Inr r \<and> in_rectangle r (int x) (int y)))"
        by simp
      then show "(m' ! y ! x \<noteq> 0) =
        (m ! y ! x \<noteq> 0 \<or>
          (\<exists>d\<in>set (accepted t (d # ds)). \<exists>r. region w h (fst d) = Inr r \<and> in_rectangle r (int x) (int y)))"
        using px acc r d rr by auto
    qed
  qed
qed

lemma mask_loop_succeeds:
  "(\<exists>res. mask_loop t w h ds acc = Inr res) = (\<forall>d\<in>set (accepted t ds). fst d \<noteq> [])"
proof (induction ds arbitrary: acc)
  case Nil
  then show ?case by (simp add: accepted_def)
next
  case (Cons d ds)
  obtain bbox tx c where d: "d = (bbox, tx, c)" by (cases d)
  obtain m n where acc: "acc = (m, n)" by (cases acc)
  show ?case
  proof (cases "c > t")
    case False
    then show ?thesis using Cons.IH[of acc] d acc by (simp add: accepted_def)
  next
    case True
    show ?thesis
    proof (cases "bbox = []")
      case True
      with \<open>c > t\<close> d acc show ?thesis by (auto simp: accepted_def region_def)
    next
      case False
      then obtain r where r: "region w h bbox = Inr r" using region_Inr_iff by blast
      obtain x1 y1 x2 y2 where rr: "r = (x1, y1, x2, y2)" by (cases r)
      show ?thesis
        using Cons.IH[of "(cv2_rectangle m (x1, y1) (x2, y2) 255, n + 1)"] \<open>c > t\<close> d acc r rr False
        by (simp add: accepted_def)
    qed
  qed
qed

lemma accepted_mono: "t \<le> t' \<Longrightarrow> set (accepted t' ds) \<subseteq> set (accepted t ds)"
  by (auto simp: accepted_def)

lemma mask_loop_none_accepted:
  "accepted t ds = [] \<Longrightarrow> mask_loop t w h ds acc = Inr acc"
  using mask_loop_accepted[of t w h ds acc] by simp

lemma accepted_append: "accepted t (xs @ ys) = accepted t xs @ accepted t ys"
  by (simp add: accepted_def)

lemma accepted_twice: "t \<le> t' \<Longrightarrow> accepted t' (accepted t ds) = accepted t' ds"
  by (induction ds) (auto simp: accepted_def)

lemma shape_nonneg: "0 \<le> shape0 img" "0 \<le> shape1 img"
  by (simp_all add: shape0_def shape1_def split: list.splits)

lemma region_ordered:
  assumes "region w h bbox = Inr (x_min, y_min, x_max, y_max)"
    and "0 \<le> w" and "0 \<le> h" and "box_meets_image w h bbox"
  shows "x_min \<le> x_max \<and> y_min \<le> y_max"
proof -
  let ?xs = "map (\<lambda>p. astype_int (fst p)) bbox" and ?ys = "map (\<lambda>p. astype_int (snd p)) bbox"
  from assms(1) have ne: "bbox \<noteq> []" by (auto simp: region_def)
  have fx: "map fst (map (\<lambda>(x, y). (astype_int x, astype_int y)) bbox) = ?xs"
    and fy: "map snd (map (\<lambda>(x, y). (astype_int x, astype_int y)) bbox) = ?ys"
    by (simp_all add: case_prod_beta comp_def)
  from assms(1) ne
  have xmin: "x_min = max 0 (max 0 (Min (set ?xs)) - 5)"
    and ymin: "y_min = max 0 (max 0 (Min (set ?ys)) - 5)"
    and xmax: "x_max = min w (min w (Max (set ?xs)) + 5)"
    and ymax: "y_max = min h (min h (Max (set ?ys)) + 5)"
    unfolding region_def Let_def padding_def fx fy by simp_all
  from assms(4) obtain a b c d where
    a: "a \<in> set ?xs" "0 \<le> a" and b: "b \<in> set ?xs" "b \<le> w" and
    c: "c \<in> set ?ys" "0 \<le> c" and d: "d \<in> set ?ys" "d \<le> h"
    unfolding box_meets_image_def Let_def by blast
  have "Min (set ?xs) \<le> b" "a \<le> Max (set ?xs)" "Min (set ?ys) \<le> d" "c \<le> Max (set ?ys)"
    "Min (set ?xs) \<le> a" "Min (set ?ys) \<le> c"
    using a b c d by (simp_all add: Min_le Max_ge)
  then have "x_min \<le> x_max" and "y_min \<le> y_max"
    using a(2) b(2) c(2) d(2) assms(2,3)
    unfolding xmin ymin xmax ymax by linarith+
  then show ?thesis by simp
qed

lemma in_rectangle_ordered:
  "x_min \<le> x_max \<Longrightarrow> y_min \<le> y_max \<Longrightarrow>
   in_rectangle (x_min, y_min, x_max, y_max) x y =
     (x_min \<le> x \<and> x \<le> x_max \<and> y_min \<le> y \<and> y \<le> y_max)"
  by (simp add: in_rectangle_def min_def max_def)

section \<open>Facts about the file system\<close>

lemma fs_kept_refl: "fs_kept w w"
  by (simp add: fs_kept_def)

lemma fs_kept_trans: "fs_kept w w1 \<Longrightarrow> fs_kept w1 w2 \<Longrightarrow> fs_kept w w2"
  by (auto simp: fs_kept_def)

lemma requests_get_kept: "fs_kept w (snd (requests_get url w))"
  by (simp add: requests_get_def fs_kept_def split: list.splits)

lemma get_reader_kept: "fs_kept w (snd (get_reader e w))"
  by (simp add: get_reader_def fs_kept_def split: option.splits)

lemma log_step_kept: "ev \<in> {Readtext, Inpaint} \<Longrightarrow> fs_kept w (w\<lparr>log := log w @ [ev]\<rparr>)"
  by (auto simp: fs_kept_def)

lemma try_body_kept: "fs_kept w (snd (try_body e url w))"
proof -
  obtain r w1 where g: "requests_get url w = (r, w1)" by (cases "requests_get url w")
  have k1: "fs_kept w w1" using requests_get_kept[of w url] g by simp
  obtain r2 w2 where rd: "get_reader e w1 = (r2, w2)" by (cases "get_reader e w1")
  have k2: "fs_kept w1 w2" using get_reader_kept[of w1 e] rd by simp
  have k3: "fs_kept w2 (w2\<lparr>log := log w2 @ [Readtext]\<rparr>)" by (rule log_step_kept) simp
  have k4: "fs_kept (w2\<lparr>log := log w2 @ [Readtext]\<rparr>) (w2\<lparr>log := log w2 @ [Readtext, Inpaint]\<rparr>)"
    by (auto simp: fs_kept_def)
  note k12 = fs_kept_trans[OF k1 k2]
  note k123 = fs_kept_trans[OF k12 k3]
  note k1234 = fs_kept_trans[OF k123 k4]
  show ?thesis
    using k1 k12 k123 k1234
    by (simp add: try_body_def g rd Let_def split: sum.splits prod.splits)
qed

lemma detect_and_blur_text_kept: "fs_kept w (snd (detect_and_blur_text e url b w))"
proof -
  obtain r w1 where t: "try_body e url w = (r, w1)" by (cases "try_body e url w")
  have k1: "fs_kept w w1" using try_body_kept[of w e url] t by simp
  obtain r2 w2 where g: "requests_get url w1 = (r2, w2)" by (cases "requests_get url w1")
  have k2: "fs_kept w1 w2" using requests_get_kept[of w1 url] g by simp
  show ?thesis using k1 fs_kept_trans[OF k1 k2]
    by (simp add: detect_and_blur_text_def t g split: sum.splits)
qed

lemma entry_kept_refl: "entry_kept p w w"
  by (simp add: entry_kept_def)

lemma entry_kept_trans: "entry_kept p w w1 \<Longrightarrow> entry_kept p w1 w2 \<Longrightarrow> entry_kept p w w2"
  by (auto simp: entry_kept_def)

lemma fs_kept_entry: "fs_kept w w' \<Longrightarrow> entry_kept p w w'"
  by (auto simp: fs_kept_def entry_kept_def)

lemma save_processed_image_entry:
  "q \<noteq> p \<Longrightarrow> entry_kept q w (snd (save_processed_image e img p w))"
  by (auto simp: entry_kept_def save_processed_image_def Let_def
           split: option.splits prod.splits sum.splits)

lemma get_processed_poster_entry:
  assumes "files w p \<noteq> None"
  shows "entry_kept p w (snd (get_processed_poster e s r w))"
proof (cases "os_path_exists w (processed_path e r)")
  case True
  then show ?thesis
    by (simp add: get_processed_poster_def try_route_def send_file_def entry_kept_refl
             split: option.splits)
next
  case False
  with assms have neq: "p \<noteq> processed_path e r"
    by (auto simp: os_path_exists_def)
  show ?thesis
  proof (cases s)
    case None
    with False show ?thesis
      by (simp add: get_processed_poster_def try_route_def entry_kept_refl)
  next
    case (Some q)
    obtain res w1 where d: "detect_and_blur_text e (poster_url q) 51 w = (res, w1)"
      by (cases "detect_and_blur_text e (poster_url q) 51 w")
    have k: "entry_kept p w w1"
      using detect_and_blur_text_kept[of w e "poster_url q" 51] d by (simp add: fs_kept_entry)
    show ?thesis
    proof (cases "poster_id q = r \<and> poster_url q \<noteq> []")
      case no: False
      with False Some show ?thesis
        by (auto simp: get_processed_poster_def try_route_def entry_kept_refl)
    next
      case True
      show ?thesis
      proof (cases res)
        case None
        have "snd (get_processed_poster e s r w) = w1"
          using False Some True d None by (simp add: get_processed_poster_def try_route_def Let_def)
        then show ?thesis using k by simp
      next
        case (Some img)
        have "snd (get_processed_poster e s r w) = snd (save_processed_image e (Some img) (processed_path e r) w1)"
          using False \<open>s = Some q\<close> True d Some
          by (simp add: get_processed_poster_def try_route_def Let_def split: sum.splits)
        then show ?thesis
          using entry_kept_trans[OF k save_processed_image_entry[OF neq]] by simp
      qed
    qed
  qed
qed

lemma serve_entry:
  "files w p \<noteq> None \<Longrightarrow> entry_kept p w (snd (serve rs w))"
proof (induction rs arbitrary: w)
  case Nil
  then show ?case by (simp add: entry_kept_refl)
next
  case (Cons rq rs)
  obtain e s r where rq: "rq = (e, s, r)" by (cases rq)
  let ?w1 = "snd (get_processed_poster e s r w)"
  have k1: "entry_kept p w ?w1" by (rule get_processed_poster_entry[OF Cons.prems])
  then have "files ?w1 p \<noteq> None" using Cons.prems by (simp add: entry_kept_def)
  from Cons.IH[OF this] have k2: "entry_kept p ?w1 (snd (serve rs ?w1))" .
  have "snd (serve (rq # rs) w) = snd (serve rs ?w1)"
    by (simp add: rq split: prod.splits)
  then show ?case using entry_kept_trans[OF k1 k2] by simp
qed

section \<open>Facts about the example\<close>

lemma example_shape: "shape0 example_img = 4" "shape1 example_img = 16"
  by (simp_all add: shape0_def shape1_def example_img_def numeral_eq_Suc)

lemma example_run:
  "mask_loop confidence_threshold 16 4 example_detections (np_zeros 4 16, 0) = Inr (example_mask, 2)"
  by code_simp

lemma example_noise_rejected: "accepted confidence_threshold [example_noise] = []"
  by (simp add: accepted_def confidence_threshold_def example_noise_def)

lemma example_cached_file:
  "files example_cached (processed_path example_env ''abc'') = Some [255, 216, 255]"
  by (simp add: example_cached_def)

text \<open>In the route, a \<^verbatim>\<open>None\<close> from \<^verbatim>\<open>detect_and_blur_text\<close> becomes a redirect to the
  original URL.\<close>

lemma pipeline_error_is_redirected:
  assumes "\<not> os_path_exists w (processed_path e requested)"
    and "poster_id q = requested" and "poster_url q \<noteq> []"
    and "fst (detect_and_blur_text e (poster_url q) 51 w) = None"
  shows "fst (get_processed_poster e (Some q) requested w) = Redirect (poster_url q)"
proof -
  obtain w1 where d: "detect_and_blur_text e (poster_url q) 51 w = (None, w1)"
    using assms(4) by (cases "detect_and_blur_text e (poster_url q) 51 w") simp
  show ?thesis
    using assms(1-3) by (simp add: get_processed_poster_def try_route_def Let_def d)
qed

section \<open>The claims\<close>

text \<open>
  C1. When any stage of the \<^verbatim>\<open>try\<close> of \<^verbatim>\<open>detect_and_blur_text\<close> fails, that is: the
  fetch raises, the status is an error status, the body does not decode, the colour
  conversion raises, the engine cannot be built, the detection raises, the mask loop
  raises on an accepted detection, or the inpainting raises, then the function fetches
  the URL once more and returns the decoded, unprocessed raster of that second response,
  and \<^verbatim>\<open>None\<close> when the second fetch or its decoding fails. Exactly two responses are
  consumed, the second fetch is the last thing that happens, and no exception leaves the
  function (its result is an optional raster).
\<close>

theorem failure_falls_back_to_original:
  assumes
    "net w = [] \<or> (\<exists>err rest. net w = Inl err # rest) \<or>
     (\<exists>response rest. net w = Inr response # rest \<and>
        ((400 \<le> status_code response \<and> status_code response < 600) \<or>
         (\<exists>err. Image_open e (content response) = Inl err) \<or>
         (\<exists>img_pil. Image_open e (content response) = Inr img_pil \<and>
            ((\<exists>err. cvtColor e img_pil = Inl err) \<or>
             (\<exists>img. cvtColor e img_pil = Inr img \<and>
                ((\<not> reader w \<and> (\<exists>err. Reader_new e = Some err)) \<or>
                 (\<exists>err. readtext e img = Inl err) \<or>
                 (\<exists>detections. readtext e img = Inr detections \<and>
                    ((\<exists>d\<in>set (accepted confidence_threshold detections). fst d = []) \<or>
                     (\<exists>mask1 n err.
                        mask_loop confidence_threshold (shape1 img) (shape0 img) detections
                          (np_zeros (shape0 img) (shape1 img), 0) = Inr (mask1, n) \<and>
                        0 < n \<and> inpaint e img mask1 7 = Inl err)))))))))"
  shows "fst (detect_and_blur_text e image_url blur_strength w) =
           (case drop 1 (net w) of
              Inr response2 # rest2 \<Rightarrow>
                (case Image_open e (content response2) of
                   Inr img_pil \<Rightarrow>
                     (case cvtColor e img_pil of Inr img \<Rightarrow> Some img | Inl err \<Rightarrow> None)
                 | Inl err \<Rightarrow> None)
            | _ \<Rightarrow> None) \<and>
         net (snd (detect_and_blur_text e image_url blur_strength w)) = drop 2 (net w) \<and>
         (\<exists>evs. log (snd (detect_and_blur_text e image_url blur_strength w)) =
                  log w @ [Requests_get image_url] @ evs @ [Requests_get image_url] \<and>
                set evs \<subseteq> {Reader_init, Readtext, Inpaint})"
proof -
  let ?second = "\<lambda>ps. (case ps of
              Inr response2 # rest2 \<Rightarrow>
                (case Image_open e (content response2) of
                   Inr img_pil \<Rightarrow>
                     (case cvtColor e img_pil of Inr img \<Rightarrow> Some img | Inl err \<Rightarrow> None)
                 | Inl err \<Rightarrow> None)
            | _ \<Rightarrow> None)"
  text \<open>What the \<^verbatim>\<open>except\<close> clause does from a world \<open>w1\<close>.\<close>
  have handler: "fst (detect_and_blur_text e image_url blur_strength w) = ?second (net w1) \<and>
      net (snd (detect_and_blur_text e image_url blur_strength w)) = drop 1 (net w1) \<and>
      log (snd (detect_and_blur_text e image_url blur_strength w)) = log w1 @ [Requests_get image_url]"
    if "try_body e image_url w = (Inl err, w1)" for err w1
    using that
    by (simp add: detect_and_blur_text_def requests_get_def split: list.splits sum.splits)
  text \<open>Every failing stage makes the \<^verbatim>\<open>try\<close> raise, after the first fetch and possibly the
    engine, the detection and the inpainting were logged.\<close>
  have raises: "\<exists>err w1 evs. try_body e image_url w = (Inl err, w1) \<and> net w1 = drop 1 (net w) \<and>
      log w1 = log w @ [Requests_get image_url] @ evs \<and> set evs \<subseteq> {Reader_init, Readtext, Inpaint}"
  proof -
    have loop_raises: "\<exists>err. mask_loop confidence_threshold wd ht detections acc = Inl err"
      if "\<exists>d\<in>set (accepted confidence_threshold detections). fst d = []" for wd ht detections acc
    proof -
      have "\<not> (\<exists>res. mask_loop confidence_threshold wd ht detections acc = Inr res)"
        using that mask_loop_succeeds[of confidence_threshold wd ht detections acc] by blast
      then show ?thesis by (cases "mask_loop confidence_threshold wd ht detections acc") auto
    qed
    from assms show ?thesis
      apply (elim disjE exE conjE)
      subgoal by (simp add: try_body_def requests_get_def)
      subgoal by (simp add: try_body_def requests_get_def)
      subgoal by (simp add: try_body_def requests_get_def raise_for_status_def)
      subgoal
        by (auto simp: try_body_def requests_get_def raise_for_status_def)
      subgoal
        by (auto simp: try_body_def requests_get_def raise_for_status_def)
      subgoal
        by (auto simp: try_body_def requests_get_def raise_for_status_def get_reader_def)
      subgoal
        by (auto simp: try_body_def requests_get_def raise_for_status_def get_reader_def Let_def
            split: option.splits)
      subgoal for response rest img_pil img detections
        using loop_raises[of detections "shape1 img" "shape0 img" "(np_zeros (shape0 img) (shape1 img), 0)"]
        by (auto simp: try_body_def requests_get_def raise_for_status_def get_reader_def Let_def
            split: option.splits)
      subgoal
        by (auto simp: try_body_def requests_get_def raise_for_status_def get_reader_def Let_def
            split: option.splits)
      done
  qed
  then obtain err w1 evs where t: "try_body e image_url w = (Inl err, w1)"
    and n: "net w1 = drop 1 (net w)"
    and l: "log w1 = log w @ [Requests_get image_url] @ evs"
    and s: "set evs \<subseteq> {Reader_init, Readtext, Inpaint}"
    by blast
  from handler[OF t] n l s show ?thesis by (auto simp: drop_Suc numeral_2_eq_2 drop_tl)
qed

theorem failure_falls_back_to_original_witness:
  "net example_world =
     [Inr \<lparr>status_code = 200, content = [137, 80]\<rparr>, Inr \<lparr>status_code = 200, content = [137, 80]\<rparr>] \<and>
   Image_open example_env [137, 80] = Inr example_pil \<and>
   cvtColor example_env example_pil = Inr example_img \<and>
   readtext example_env example_img = Inr example_detections \<and>
   mask_loop confidence_threshold (shape1 example_img) (shape0 example_img) example_detections
     (np_zeros (shape0 example_img) (shape1 example_img), 0) = Inr (example_mask, 2) \<and>
   inpaint example_env example_img example_mask 7 = Inl CvError \<and>
   fst (detect_and_blur_text example_env example_url 51 example_world) = Some example_img \<and>
   net (snd (detect_and_blur_text example_env example_url 51 example_world)) = [] \<and>
   (\<exists>evs. log (snd (detect_and_blur_text example_env example_url 51 example_world)) =
            log example_world @ [Requests_get example_url] @ evs @ [Requests_get example_url] \<and>
          set evs \<subseteq> {Reader_init, Readtext, Inpaint})"
proof -
  have stages:
    "net example_world =
       [Inr \<lparr>status_code = 200, content = [137, 80]\<rparr>, Inr \<lparr>status_code = 200, content = [137, 80]\<rparr>]"
    "Image_open example_env [137, 80] = Inr example_pil"
    "cvtColor example_env example_pil = Inr example_img"
    "readtext example_env example_img = Inr example_detections"
    "mask_loop confidence_threshold (shape1 example_img) (shape0 example_img) example_detections
       (np_zeros (shape0 example_img) (shape1 example_img), 0) = Inr (example_mask, 2)"
    "inpaint example_env example_img example_mask 7 = Inl CvError"
    by (simp_all add: example_world_def example_env_def example_shape example_run)
  show ?thesis
    using failure_falls_back_to_original[of example_world example_env example_url 51] stages
    by simp
qed

text \<open>
  C2. When the fetch and the decoding succeed and no detection has a confidence above the
  threshold, \<^verbatim>\<open>detect_and_blur_text\<close> returns the fetched raster itself, and the log shows
  one fetch, the engine and one detection: \<^verbatim>\<open>cv2.inpaint\<close> is not called.
\<close>

theorem no_accepted_detection_returns_original:
  assumes "net w = Inr response # rest"
    and "raise_for_status response = Inr ()"
    and "Image_open e (content response) = Inr img_pil"
    and "cvtColor e img_pil = Inr img"
    and "reader w \<or> Reader_new e = None"
    and "readtext e img = Inr detections"
    and "accepted confidence_threshold detections = []"
  shows "fst (detect_and_blur_text e image_url blur_strength w) = Some img \<and>
         log (snd (detect_and_blur_text e image_url blur_strength w)) =
           log w @ [Requests_get image_url] @ (if reader w then [] else [Reader_init]) @ [Readtext]"
proof -
  have loop: "mask_loop confidence_threshold (shape1 img) (shape0 img) detections
                (np_zeros (shape0 img) (shape1 img), 0) = Inr (np_zeros (shape0 img) (shape1 img), 0)"
    by (rule mask_loop_none_accepted[OF assms(7)])
  show ?thesis
    using assms(1-6) loop
    by (auto simp: detect_and_blur_text_def try_body_def requests_get_def get_reader_def Let_def)
qed

theorem no_accepted_detection_returns_original_witness:
  "accepted confidence_threshold [example_noise] = [] \<and>
   fst (detect_and_blur_text (example_env\<lparr>readtext := \<lambda>img. Inr [example_noise]\<rparr>)
          example_url 51 example_world) = Some example_img \<and>
   log (snd (detect_and_blur_text (example_env\<lparr>readtext := \<lambda>img. Inr [example_noise]\<rparr>)
          example_url 51 example_world)) = [Requests_get example_url, Reader_init, Readtext]"
  using no_accepted_detection_returns_original[
      of example_world "\<lparr>status_code = 200, content = [137, 80]\<rparr>"
         "[Inr \<lparr>status_code = 200, content = [137, 80]\<rparr>]"
         "example_env\<lparr>readtext := \<lambda>img. Inr [example_noise]\<rparr>"
         example_pil example_img "[example_noise]" example_url 51]
    example_noise_rejected
  by (simp add: example_env_def example_world_def raise_for_status_def)

text \<open>
  C3. As stated (the rectangle lies within \<open>[0, width) \<times> [0, height)\<close>) the claim fails:
  a box that ends two pixels before the right edge of a 100 by 100 image gets
  \<open>x_max = 100\<close>, the width itself.
\<close>

theorem region_upper_bound_counterexample:
  "region 100 100 [(10, 10), (98, 10), (98, 40), (10, 40)] = Inr (5, 5, 100, 45) \<and>
   \<not> (100 :: int) < 100"
  by (simp add: region_def astype_int_def padding_def)

text \<open>
  C3, amended. The rectangle handed to \<^verbatim>\<open>cv2.rectangle\<close> has \<open>0 \<le> x_min\<close>,
  \<open>0 \<le> y_min\<close>, \<open>x_max \<le> width\<close> and \<open>y_max \<le> height\<close> (closed upper bounds); when the
  bounding box of the quadrilateral meets the image, also \<open>x_min \<le> x_max\<close> and
  \<open>y_min \<le> y_max\<close>. Drawing it keeps the mask's height and width, so every painted
  pixel lies within \<open>[0, width) \<times> [0, height)\<close>.
\<close>

theorem region_clamped:
  assumes "region (shape1 img) (shape0 img) bbox = Inr (x_min, y_min, x_max, y_max)"
  shows "0 \<le> x_min \<and> 0 \<le> y_min \<and> x_max \<le> shape1 img \<and> y_max \<le> shape0 img \<and>
         (box_meets_image (shape1 img) (shape0 img) bbox \<longrightarrow>
            x_min \<le> x_max \<and> y_min \<le> y_max) \<and>
         length (cv2_rectangle m (x_min, y_min) (x_max, y_max) 255) = length m \<and>
         map length (cv2_rectangle m (x_min, y_min) (x_max, y_max) 255) = map length m"
proof -
  let ?xs = "map (\<lambda>p. astype_int (fst p)) bbox" and ?ys = "map (\<lambda>p. astype_int (snd p)) bbox"
  let ?w = "shape1 img" and ?h = "shape0 img"
  from assms have ne: "bbox \<noteq> []" by (auto simp: region_def)
  have fx: "map fst (map (\<lambda>(x, y). (astype_int x, astype_int y)) bbox) = ?xs"
    and fy: "map snd (map (\<lambda>(x, y). (astype_int x, astype_int y)) bbox) = ?ys"
    by (simp_all add: case_prod_beta comp_def)
  from assms ne
  have xmin: "x_min = max 0 (max 0 (Min (set ?xs)) - 5)"
    and ymin: "y_min = max 0 (max 0 (Min (set ?ys)) - 5)"
    and xmax: "x_max = min ?w (min ?w (Max (set ?xs)) + 5)"
    and ymax: "y_max = min ?h (min ?h (Max (set ?ys)) + 5)"
    unfolding region_def Let_def padding_def fx fy by simp_all
  have bounds: "0 \<le> x_min" "0 \<le> y_min" "x_max \<le> ?w" "y_max \<le> ?h"
    using xmin ymin xmax ymax by simp_all
  have order: "x_min \<le> x_max \<and> y_min \<le> y_max" if meets: "box_meets_image ?w ?h bbox"
  proof -
    from meets obtain a b c d where
      a: "a \<in> set ?xs" "0 \<le> a" and b: "b \<in> set ?xs" "b \<le> ?w" and
      c: "c \<in> set ?ys" "0 \<le> c" and d: "d \<in> set ?ys" "d \<le> ?h"
      unfolding box_meets_image_def Let_def by blast
    have "Min (set ?xs) \<le> b" "a \<le> Max (set ?xs)" "Min (set ?ys) \<le> d" "c \<le> Max (set ?ys)"
      "Min (set ?xs) \<le> a" "Min (set ?ys) \<le> c"
      using a b c d by (simp_all add: Min_le Max_ge)
    then have "x_min \<le> x_max" and "y_min \<le> y_max"
      using a(2) b(2) c(2) d(2) shape_nonneg[of img]
      unfolding xmin ymin xmax ymax by linarith+
    then show ?thesis by simp
  qed
  have shape: "map length (cv2_rectangle m (x_min, y_min) (x_max, y_max) 255) = map length m"
    by (rule nth_equalityI) (simp_all add: cv2_rectangle_length cv2_rectangle_row_length)
  show ?thesis using bounds order shape by (simp add: cv2_rectangle_length)
qed

theorem region_clamped_witness:
  "region (shape1 example_img) (shape0 example_img) [(10, 1), (20, 1), (20, 3), (10, 3)] =
     Inr (5, 0, 16, 4) \<and>
   box_meets_image (shape1 example_img) (shape0 example_img) [(10, 1), (20, 1), (20, 3), (10, 3)] \<and>
   (5 :: int) \<le> 16 \<and> (0 :: int) \<le> 4 \<and> (16 :: int) \<le> shape1 example_img \<and>
   (4 :: int) \<le> shape0 example_img \<and>
   length (cv2_rectangle example_mask (5, 0) (16, 4) 255) = length example_mask \<and>
   map length (cv2_rectangle example_mask (5, 0) (16, 4) 255) = map length example_mask"
proof -
  have r: "region (shape1 example_img) (shape0 example_img) [(10, 1), (20, 1), (20, 3), (10, 3)] =
     Inr (5, 0, 16, 4)"
    by (simp add: example_shape region_def astype_int_def padding_def)
  have b: "box_meets_image (shape1 example_img) (shape0 example_img)
     [(10, 1), (20, 1), (20, 3), (10, 3)]"
    by (simp add: example_shape box_meets_image_def astype_int_def)
  show ?thesis
    using region_clamped[OF r, of example_mask] r b by simp
qed

text \<open>
  C4. A detection whose confidence is at most the threshold is discarded: taking it out of
  the sequence changes neither the mask, nor the count, nor whether the loop raises, and
  it is not among the accepted detections. Raising the threshold can only shrink the
  accepted detections, the count and the set of nonzero mask pixels (and a loop that
  succeeded still succeeds). The source runs the loop at \<open>confidence_threshold\<close>.
\<close>

theorem low_confidence_never_contributes:
  "(confidence \<le> t \<longrightarrow>
      mask_loop t w h (ds1 @ (bbox, tx, confidence) # ds2) acc = mask_loop t w h (ds1 @ ds2) acc \<and>
      (bbox, tx, confidence) \<notin> set (accepted t ds)) \<and>
   (t \<le> t' \<longrightarrow>
      set (accepted t' ds) \<subseteq> set (accepted t ds) \<and>
      length (accepted t' ds) \<le> length (accepted t ds)) \<and>
   (t \<le> t' \<and> mask_loop t w h ds (m0, n0) = Inr (m1, n1) \<longrightarrow>
      (\<exists>m2 n2. mask_loop t' w h ds (m0, n0) = Inr (m2, n2) \<and> n2 \<le> n1 \<and>
         (\<forall>y<length m0. \<forall>x<length (m0 ! y). m2 ! y ! x \<noteq> 0 \<longrightarrow> m1 ! y ! x \<noteq> 0)))"
proof (intro conjI impI)
  assume low: "confidence \<le> t"
  have "accepted t (ds1 @ (bbox, tx, confidence) # ds2) = accepted t (ds1 @ ds2)"
    using low by (simp add: accepted_def)
  then show "mask_loop t w h (ds1 @ (bbox, tx, confidence) # ds2) acc = mask_loop t w h (ds1 @ ds2) acc"
    using mask_loop_accepted[of t w h "ds1 @ (bbox, tx, confidence) # ds2" acc]
      mask_loop_accepted[of t w h "ds1 @ ds2" acc] by simp
  show "(bbox, tx, confidence) \<notin> set (accepted t ds)"
    using low by (auto simp: accepted_def)
next
  assume le: "t \<le> t'"
  show "set (accepted t' ds) \<subseteq> set (accepted t ds)" by (rule accepted_mono[OF le])
  have "length (accepted t' (accepted t ds)) \<le> length (accepted t ds)"
    unfolding accepted_def[of t'] by (rule length_filter_le)
  then show "length (accepted t' ds) \<le> length (accepted t ds)"
    by (simp add: accepted_twice[OF le])
next
  assume h: "t \<le> t' \<and> mask_loop t w h ds (m0, n0) = Inr (m1, n1)"
  then have le: "t \<le> t'" and run: "mask_loop t w h ds (m0, n0) = Inr (m1, n1)" by simp_all
  have sub: "set (accepted t' ds) \<subseteq> set (accepted t ds)" by (rule accepted_mono[OF le])
  have "\<forall>d\<in>set (accepted t ds). fst d \<noteq> []"
    using mask_loop_succeeds[of t w h ds "(m0, n0)"] run by simp
  then have "\<forall>d\<in>set (accepted t' ds). fst d \<noteq> []" using sub by blast
  then obtain res where "mask_loop t' w h ds (m0, n0) = Inr res"
    using mask_loop_succeeds[of t' w h ds "(m0, n0)"] by blast
  then obtain m2 n2 where run': "mask_loop t' w h ds (m0, n0) = Inr (m2, n2)" by (cases res) simp
  note s1 = mask_loop_sound[OF run] and s2 = mask_loop_sound[OF run']
  have len: "length (accepted t' ds) \<le> length (accepted t ds)"
    using length_filter_le[of "\<lambda>(bbox, text, confidence). confidence > t'" "accepted t ds"]
    by (simp add: accepted_twice[OF le] accepted_def[of t', symmetric])
  have "n2 \<le> n1" using s1 s2 len by simp
  moreover have "\<forall>y<length m0. \<forall>x<length (m0 ! y). m2 ! y ! x \<noteq> 0 \<longrightarrow> m1 ! y ! x \<noteq> 0"
    using s1 s2 sub by blast
  ultimately show "\<exists>m2 n2. mask_loop t' w h ds (m0, n0) = Inr (m2, n2) \<and> n2 \<le> n1 \<and>
         (\<forall>y<length m0. \<forall>x<length (m0 ! y). m2 ! y ! x \<noteq> 0 \<longrightarrow> m1 ! y ! x \<noteq> 0)"
    using run' by blast
qed

theorem low_confidence_never_contributes_witness:
  "(1 / 10 :: rat) \<le> confidence_threshold \<and> confidence_threshold \<le> 1 / 2 \<and>
   mask_loop confidence_threshold 16 4 example_detections (np_zeros 4 16, 0) = Inr (example_mask, 2) \<and>
   mask_loop confidence_threshold 16 4
     (take 2 example_detections @ ([(12, 1), (13, 1), (13, 2), (12, 2)], ''noise'', 1 / 10) # [])
     (np_zeros 4 16, 0) =
   mask_loop confidence_threshold 16 4 (take 2 example_detections @ []) (np_zeros 4 16, 0) \<and>
   ([(12, 1), (13, 1), (13, 2), (12, 2)], ''noise'', 1 / 10) \<notin>
     set (accepted confidence_threshold example_detections) \<and>
   set (accepted (1 / 2) example_detections) \<subseteq> set (accepted confidence_threshold example_detections) \<and>
   length (accepted (1 / 2) example_detections) \<le> length (accepted confidence_threshold example_detections) \<and>
   (\<exists>m2 n2. mask_loop (1 / 2) 16 4 example_detections (np_zeros 4 16, 0) = Inr (m2, n2) \<and> n2 \<le> 2 \<and>
      (\<forall>y<length (np_zeros 4 16). \<forall>x<length (np_zeros 4 16 ! y).
          m2 ! y ! x \<noteq> 0 \<longrightarrow> example_mask ! y ! x \<noteq> 0))"
proof -
  have a: "(1 / 10 :: rat) \<le> confidence_threshold" and b: "confidence_threshold \<le> 1 / 2"
    by (simp_all add: confidence_threshold_def)
  show ?thesis
    using low_confidence_never_contributes[
        of "1 / 10" confidence_threshold 16 4 "take 2 example_detections"
           "[(12, 1), (13, 1), (13, 2), (12, 2)]" "''noise''" "[]" "(np_zeros 4 16, 0)"
           example_detections "1 / 2" "np_zeros 4 16" 0 example_mask 2]
      a b example_run
    by simp
qed

text \<open>
  C5. When the file of the requested key exists, \<^verbatim>\<open>get_processed_poster\<close> answers with
  its bytes and the world is unchanged: nothing was fetched, detected, inpainted or
  written (the log is the same, the pending responses are untouched).
\<close>

theorem cache_hit_does_no_work:
  assumes "files w (processed_path e requested) = Some bytes"
  shows "get_processed_poster e session requested w = (Send_file bytes, w)"
  using assms
  by (simp add: get_processed_poster_def try_route_def os_path_exists_def send_file_def)

theorem cache_hit_does_no_work_witness:
  "files example_cached (processed_path example_env ''abc'') = Some [255, 216, 255] \<and>
   get_processed_poster example_env None ''abc'' example_cached =
     (Send_file [255, 216, 255], example_cached)"
  using cache_hit_does_no_work[OF example_cached_file, of None] example_cached_file
  by simp

text \<open>
  C6. A file that exists keeps its content over every sequence of requests to the route,
  whatever their keys, sessions and library behaviour, and no \<^verbatim>\<open>cv2.imwrite\<close> to its
  path is ever issued.
\<close>

theorem cache_entry_never_rewritten:
  assumes "files w p = Some bytes"
  shows "files (snd (serve rs w)) p = Some bytes \<and>
         (\<exists>evs. log (snd (serve rs w)) = log w @ evs \<and> Imwrite p \<notin> set evs)"
proof -
  have "entry_kept p w (snd (serve rs w))"
    by (rule serve_entry) (simp add: assms)
  then show ?thesis using assms by (simp add: entry_kept_def)
qed

theorem cache_entry_never_rewritten_witness:
  "files example_cached (processed_path example_env ''abc'') = Some [255, 216, 255] \<and>
   files (snd (serve example_requests example_cached)) (processed_path example_env ''abc'') =
     Some [255, 216, 255] \<and>
   (\<exists>evs. log (snd (serve example_requests example_cached)) = log example_cached @ evs \<and>
      Imwrite (processed_path example_env ''abc'') \<notin> set evs)"
  using cache_entry_never_rewritten[OF example_cached_file, of example_requests] example_cached_file
  by simp

text \<open>
  C7. As stated (a pixel is nonzero iff it falls inside an accepted region's rectangle,
  \<open>x_min \<le> x \<le> x_max\<close> and \<open>y_min \<le> y \<le> y_max\<close>) the claim fails for a box wholly to
  the left of the image: its region is \<open>(0, 0, -35, 4)\<close>, no pixel is inside it, and
  \<^verbatim>\<open>cv2.rectangle\<close> paints column 0.
\<close>

theorem inverted_rectangle_counterexample:
  "region 16 4 [(-50, 1), (-40, 1), (-40, 2), (-50, 2)] = Inr (0, 0, -35, 4) \<and>
   mask_loop confidence_threshold 16 4 [([(-50, 1), (-40, 1), (-40, 2), (-50, 2)], ''TITLE'', 9 / 10)]
     (np_zeros 4 16, 0) = Inr (replicate 4 (255 # replicate 15 0), 1) \<and>
   replicate 4 (255 # replicate 15 0) ! 0 ! 0 \<noteq> (0 :: byte) \<and>
   \<not> ((0 :: int) \<le> 0 \<and> (0 :: int) \<le> - 35 \<and> (0 :: int) \<le> 0 \<and> (0 :: int) \<le> 4)"
  by code_simp

text \<open>
  C7, amended. When the loop over the detections succeeds from the zero mask, the count is
  the number of detections that pass the confidence test and the mask has the image's
  height and width; and when the bounding box of every accepted detection meets the
  image, a pixel is nonzero exactly when it falls inside the rectangle of some accepted
  detection, bounds included (so overlapping rectangles merge while each is counted).
\<close>

theorem mask_is_union_of_accepted_rectangles:
  assumes "mask_loop t w h ds (np_zeros h w, 0) = Inr (m, n)"
  shows "n = length (accepted t ds) \<and>
         length m = nat h \<and> (\<forall>y<nat h. length (m ! y) = nat w) \<and>
         (0 \<le> w \<and> 0 \<le> h \<and> (\<forall>d\<in>set (accepted t ds). box_meets_image w h (fst d)) \<longrightarrow>
          (\<forall>y<nat h. \<forall>x<nat w.
             (m ! y ! x \<noteq> 0) =
             (\<exists>d\<in>set (accepted t ds). \<exists>x_min y_min x_max y_max.
                region w h (fst d) = Inr (x_min, y_min, x_max, y_max) \<and>
                x_min \<le> int x \<and> int x \<le> x_max \<and> y_min \<le> int y \<and> int y \<le> y_max)))"
proof -
  note s = mask_loop_sound[OF assms]
  have iff: "(m ! y ! x \<noteq> 0) =
             (\<exists>d\<in>set (accepted t ds). \<exists>x_min y_min x_max y_max.
                region w h (fst d) = Inr (x_min, y_min, x_max, y_max) \<and>
                x_min \<le> int x \<and> int x \<le> x_max \<and> y_min \<le> int y \<and> int y \<le> y_max)"
    if w: "0 \<le> w" and h: "0 \<le> h"
      and meets: "\<forall>d\<in>set (accepted t ds). box_meets_image w h (fst d)"
      and y: "y < nat h" and x: "x < nat w" for x y
  proof -
    have px: "(m ! y ! x \<noteq> 0) =
      (\<exists>d\<in>set (accepted t ds). \<exists>r. region w h (fst d) = Inr r \<and> in_rectangle r (int x) (int y))"
      using s x y by (simp add: np_zeros_def)
    have eq: "(\<exists>r. region w h (fst d) = Inr r \<and> in_rectangle r (int x) (int y)) =
      (\<exists>x_min y_min x_max y_max.
                region w h (fst d) = Inr (x_min, y_min, x_max, y_max) \<and>
                x_min \<le> int x \<and> int x \<le> x_max \<and> y_min \<le> int y \<and> int y \<le> y_max)"
      if d: "d \<in> set (accepted t ds)" for d
    proof -
      have bm: "box_meets_image w h (fst d)" using meets d by blast
      show ?thesis
      proof (cases "region w h (fst d)")
        case (Inl e)
        then show ?thesis by simp
      next
        case (Inr r)
        obtain a b c e where r: "r = (a, b, c, e)" by (cases r)
        have ord: "a \<le> c \<and> b \<le> e"
          using region_ordered[OF _ w h bm] Inr r by simp
        show ?thesis using Inr r ord by (simp add: in_rectangle_ordered)
      qed
    qed
    show ?thesis unfolding px using eq by blast
  qed
  show ?thesis using s iff by (simp add: np_zeros_def)
qed

theorem mask_is_union_of_accepted_rectangles_witness:
  "mask_loop confidence_threshold 16 4 example_detections (np_zeros 4 16, 0) = Inr (example_mask, 2) \<and>
   (0 :: int) \<le> 16 \<and> (0 :: int) \<le> 4 \<and>
   list_all (\<lambda>d. box_meets_image 16 4 (fst d)) (accepted confidence_threshold example_detections) \<and>
   2 = length (accepted confidence_threshold example_detections) \<and>
   length example_mask = nat 4 \<and>
   (example_mask ! 1 ! 2 \<noteq> 0) =
     (\<exists>d\<in>set (accepted confidence_threshold example_detections). \<exists>x_min y_min x_max y_max.
        region 16 4 (fst d) = Inr (x_min, y_min, x_max, y_max) \<and>
        x_min \<le> int 2 \<and> int 2 \<le> x_max \<and> y_min \<le> int 1 \<and> int 1 \<le> y_max) \<and>
   (example_mask ! 3 ! 9 \<noteq> 0) =
     (\<exists>d\<in>set (accepted confidence_threshold example_detections). \<exists>x_min y_min x_max y_max.
        region 16 4 (fst d) = Inr (x_min, y_min, x_max, y_max) \<and>
        x_min \<le> int 9 \<and> int 9 \<le> x_max \<and> y_min \<le> int 3 \<and> int 3 \<le> y_max) \<and>
   example_mask ! 1 ! 2 = 255 \<and> example_mask ! 3 ! 9 = 0"
proof -
  note t = mask_is_union_of_accepted_rectangles[OF example_run]
  have bm: "list_all (\<lambda>d. box_meets_image 16 4 (fst d)) (accepted confidence_threshold example_detections)"
    by (simp add: accepted_def confidence_threshold_def example_detections_def example_noise_def
          box_meets_image_def astype_int_def)
  then have bm': "\<forall>d\<in>set (accepted confidence_threshold example_detections). box_meets_image 16 4 (fst d)"
    by (simp add: list_all_iff)
  have v: "example_mask ! 1 ! 2 = 255" "example_mask ! 3 ! 9 = 0"
    by (simp_all add: example_mask_def numeral_eq_Suc)
  from t bm' have p: "\<forall>y<nat 4. \<forall>x<nat 16.
            (example_mask ! y ! x \<noteq> 0) =
            (\<exists>d\<in>set (accepted confidence_threshold example_detections). \<exists>x_min y_min x_max y_max.
               region 16 4 (fst d) = Inr (x_min, y_min, x_max, y_max) \<and>
               x_min \<le> int x \<and> int x \<le> x_max \<and> y_min \<le> int y \<and> int y \<le> y_max)"
    by simp
  have p1: "(example_mask ! 1 ! 2 \<noteq> 0) =
     (\<exists>d\<in>set (accepted confidence_threshold example_detections). \<exists>x_min y_min x_max y_max.
        region 16 4 (fst d) = Inr (x_min, y_min, x_max, y_max) \<and>
        x_min \<le> int 2 \<and> int 2 \<le> x_max \<and> y_min \<le> int 1 \<and> int 1 \<le> y_max)"
    using p[rule_format, of 1 2] by simp
  have p2: "(example_mask ! 3 ! 9 \<noteq> 0) =
     (\<exists>d\<in>set (accepted confidence_threshold example_detections). \<exists>x_min y_min x_max y_max.
        region 16 4 (fst d) = Inr (x_min, y_min, x_max, y_max) \<and>
        x_min \<le> int 9 \<and> int 9 \<le> x_max \<and> y_min \<le> int 3 \<and> int 3 \<le> y_max)"
    using p[rule_format, of 3 9] by simp
  from t have n: "2 = length (accepted confidence_threshold example_detections)"
    and l: "length example_mask = nat 4" by blast+
  show ?thesis using example_run bm n l p1 p2 v by simp
qed

text \<open>
  C9. \<^verbatim>\<open>blur_strength\<close> has no influence on \<^verbatim>\<open>detect_and_blur_text\<close>: result and final
  world are the same for any two values; and \<^verbatim>\<open>cv2.inpaint\<close> is only ever asked for
  radius 7, since replacing it by a routine that ignores its radius changes nothing.
\<close>

theorem blur_strength_is_ignored:
  "detect_and_blur_text e image_url b1 w = detect_and_blur_text e image_url b2 w \<and>
   detect_and_blur_text (e\<lparr>inpaint := f\<rparr>) image_url b1 w =
     detect_and_blur_text (e\<lparr>inpaint := \<lambda>img m radius. f img m 7\<rparr>) image_url b2 w"
  by (simp add: detect_and_blur_text_def try_body_def get_reader_def
           cong: sum.case_cong prod.case_cong if_cong)

text \<open>
  C10. \<^verbatim>\<open>save_processed_image\<close> with \<^verbatim>\<open>None\<close> returns \<^verbatim>\<open>False\<close> and leaves the world as it
  is (no directory, no file, no logged call); it returns \<^verbatim>\<open>True\<close> only when there was an
  image, \<^verbatim>\<open>os.makedirs\<close> did not raise, \<^verbatim>\<open>cv2.imwrite\<close> returned \<^verbatim>\<open>True\<close> and the path
  exists afterwards.
\<close>

theorem save_processed_image_result:
  "save_processed_image e None output_path w = (False, w) \<and>
   (fst (save_processed_image e image_array output_path w) \<longrightarrow>
      (\<exists>arr. image_array = Some arr \<and>
             makedirs e (os_path_dirname output_path) = None \<and>
             fst (imwrite e output_path arr) = Inr True \<and>
             os_path_exists (snd (save_processed_image e image_array output_path w)) output_path))"
  by (auto simp: save_processed_image_def Let_def split: option.splits prod.splits sum.splits if_splits)

theorem save_processed_image_result_witness:
  "save_processed_image example_env None ''/app/static/processed_images/abc.jpg'' example_world =
     (False, example_world) \<and>
   fst (save_processed_image example_env (Some example_img)
          ''/app/static/processed_images/abc.jpg'' example_world) \<and>
   makedirs example_env (os_path_dirname ''/app/static/processed_images/abc.jpg'') = None \<and>
   fst (imwrite example_env ''/app/static/processed_images/abc.jpg'' example_img) = Inr True \<and>
   os_path_exists
     (snd (save_processed_image example_env (Some example_img)
             ''/app/static/processed_images/abc.jpg'' example_world))
     ''/app/static/processed_images/abc.jpg''"
proof -
  have s: "fst (save_processed_image example_env (Some example_img)
          ''/app/static/processed_images/abc.jpg'' example_world)"
    by (simp add: save_processed_image_def example_env_def os_path_exists_def Let_def)
  show ?thesis
    using save_processed_image_result[of example_env "''/app/static/processed_images/abc.jpg''"
        example_world "Some example_img"] s
    by simp
qed

end
